theory Spec2Isabelle
  imports
    Main
    "HOL-Library.Sublist"
    "HOL-Library.Char_ord"
    "HOL-Library.List_Lexorder"
begin

text \<open>
  The repository serves per-well file manifests for queries. It holds the query API twice:
  \<^verbatim>\<open>api.py\<close> with \<^verbatim>\<open>index.py\<close> builds a flat index of entries once and answers from
  it, and \<^verbatim>\<open>src/volve_query/api.py\<close> answers from the loaded manifests directly. Both are
  modelled, function by function, and so is the loader \<^verbatim>\<open>src/volve_query/loader.py\<close>.
  The request parameters are the arguments of the endpoint functions; the bounds that the
  framework checks before it calls them (\<^verbatim>\<open>limit >= 1\<close>, \<^verbatim>\<open>offset >= 0\<close>) make limits
  and offsets natural numbers.
\<close>

section \<open>Strings\<close>

text \<open>
  Python strings are modelled as \<^typ>\<open>string\<close>. The string methods the sources call
  (\<^verbatim>\<open>strip\<close>, \<^verbatim>\<open>lower\<close>, \<^verbatim>\<open>replace\<close>, \<^verbatim>\<open>split\<close>, \<^verbatim>\<open>in\<close>) are modelled on ASCII:
  the whitespace characters are those of \<^verbatim>\<open>str.isspace\<close> below code 128, and
  \<^verbatim>\<open>lower\<close> maps \<^verbatim>\<open>A-Z\<close> to \<^verbatim>\<open>a-z\<close> and leaves every other character alone.
\<close>

definition is_space :: "char \<Rightarrow> bool" where
  "is_space c = (let n = (of_char c :: nat) in (9 \<le> n \<and> n \<le> 13) \<or> (28 \<le> n \<and> n \<le> 32))"

definition strip :: "string \<Rightarrow> string" where
  "strip s = rev (dropWhile is_space (rev (dropWhile is_space s)))"

definition lower_char :: "char \<Rightarrow> char" where
  "lower_char c = (let n = (of_char c :: nat) in if 65 \<le> n \<and> n \<le> 90 then char_of (n + 32) else c)"

definition lower :: "string \<Rightarrow> string" where
  "lower s = map lower_char s"

text \<open>\<^verbatim>\<open>s.replace(a, b)\<close> for one-character \<^verbatim>\<open>a\<close> and \<^verbatim>\<open>b\<close>.\<close>

definition replace :: "char \<Rightarrow> char \<Rightarrow> string \<Rightarrow> string" where
  "replace a b s = map (\<lambda>c. if c = a then b else c) s"

text \<open>
  Splitting at every character that satisfies a test; empty segments are kept, so the
  result is never empty. \<^verbatim>\<open>s.split(sep)\<close> for a one-character separator is the instance
  \<open>split_on\<close>.
\<close>

fun split_where :: "(char \<Rightarrow> bool) \<Rightarrow> string \<Rightarrow> string list" where
  "split_where P [] = [[]]"
| "split_where P (c # cs) =
     (if P c then [] # split_where P cs
      else (case split_where P cs of [] \<Rightarrow> [[c]] | p # ps \<Rightarrow> (c # p) # ps))"

definition split_on :: "char \<Rightarrow> string \<Rightarrow> string list" where
  "split_on sep s = split_where (\<lambda>c. c = sep) s"

text \<open>\<^verbatim>\<open>sub in s\<close>: \<^verbatim>\<open>sub\<close> occurs in \<^verbatim>\<open>s\<close> as a contiguous substring.\<close>

fun str_in :: "string \<Rightarrow> string \<Rightarrow> bool" where
  "str_in sub [] = (sub = [])"
| "str_in sub (c # cs) = (prefix sub (c # cs) \<or> str_in sub cs)"

text \<open>
  \<^verbatim>\<open>PurePosixPath(path).name\<close>: the last path component, where empty components and
  \<^verbatim>\<open>.\<close> components are dropped by the path parser; the empty string when nothing is left.
\<close>

definition filename_from_path :: "string \<Rightarrow> string" where
  "filename_from_path path =
     (case filter (\<lambda>p. p \<noteq> [] \<and> p \<noteq> ''.'') (split_on CHR ''/'' path) of
        [] \<Rightarrow> []
      | p # ps \<Rightarrow> last (p # ps))"

section \<open>Data model (models.py)\<close>

text \<open>
  Field names carry a prefix (\<open>n_\<close>, \<open>m_\<close>, \<open>h_\<close>, \<open>e_\<close>, \<open>i_\<close> and so on)
  because the classes of the source share their field names. A Python \<^verbatim>\<open>dict\<close> is an association list in
  insertion order; \<open>dict_set\<close> is the assignment \<^verbatim>\<open>d[k] = v\<close>, which replaces the value of
  a key already present in place and appends a new key at the end.
\<close>

datatype entry_type = File | Directory

datatype raw_tags = TagsNone | TagsStr string | TagsList "string list"

record manifest_node =
  n_path :: string
  n_name :: string
  n_type :: entry_type
  n_tags :: raw_tags
  n_foreign_ref_wells :: "string list"

record manifest =
  m_well_id :: string
  m_buckets :: "(string \<times> manifest_node list) list"
  m_bucket_counts :: "(string \<times> int) list option"
  m_foreign_ref :: "string list option"

record search_hit =
  h_type :: entry_type
  h_well_key :: string
  h_well_id :: string
  h_bucket :: string
  h_path :: string
  h_filename :: string
  h_tags :: "string list"

record file_entry =
  e_type :: entry_type
  e_well_key :: string
  e_well_id :: string
  e_bucket :: string
  e_path :: string
  e_filename :: string
  e_tags :: "string list"

fun dict_set :: "('k \<times> 'v) list \<Rightarrow> 'k \<Rightarrow> 'v \<Rightarrow> ('k \<times> 'v) list" where
  "dict_set [] k v = [(k, v)]"
| "dict_set (p # ps) k v = (if fst p = k then (k, v) # ps else p # dict_set ps k v)"

section \<open>The manifest index (index.py)\<close>

fun split_tags :: "raw_tags \<Rightarrow> string list" where
  "split_tags TagsNone = []"
| "split_tags (TagsList tags) = map strip (filter (\<lambda>t. strip t \<noteq> []) tags)"
| "split_tags (TagsStr tags) =
     (let parts = map strip (split_on CHR ''|'' (replace CHR '','' CHR ''|'' tags))
      in filter (\<lambda>p. p \<noteq> []) parts)"

record manifest_index =
  i_manifests :: "(string \<times> manifest) list"
  i_wells_sorted :: "string list"
  i_flat :: "search_hit list"

text \<open>The three nested iterations of \<^verbatim>\<open>ManifestIndex._build\<close>, innermost first.\<close>

fun build_nodes :: "string \<Rightarrow> string \<Rightarrow> string \<Rightarrow> manifest_node list \<Rightarrow> search_hit list" where
  "build_nodes well_key well_id bucket_name [] = []"
| "build_nodes well_key well_id bucket_name (e # entries) =
     (let path = n_path e in
      if path = [] then build_nodes well_key well_id bucket_name entries
      else
        \<lparr>h_type = n_type e, h_well_key = well_key, h_well_id = well_id,
         h_bucket = bucket_name, h_path = path,
         h_filename = (if n_name e \<noteq> [] then n_name e else filename_from_path path),
         h_tags = split_tags (n_tags e)\<rparr>
        # build_nodes well_key well_id bucket_name entries)"

fun build_buckets :: "string \<Rightarrow> string \<Rightarrow> (string \<times> manifest_node list) list \<Rightarrow> search_hit list" where
  "build_buckets well_key well_id [] = []"
| "build_buckets well_key well_id ((bucket_name, entries) # bs) =
     build_nodes well_key well_id bucket_name entries @ build_buckets well_key well_id bs"

fun build :: "(string \<times> manifest) list \<Rightarrow> search_hit list" where
  "build [] = []"
| "build ((well_key, m) # ms) =
     (let well_id = (if m_well_id m \<noteq> [] then m_well_id m else replace CHR ''_'' CHR ''/'' well_key)
      in build_buckets well_key well_id (m_buckets m)) @ build ms"

definition ManifestIndex :: "(string \<times> manifest) list \<Rightarrow> manifest_index" where
  "ManifestIndex ms = \<lparr>i_manifests = ms, i_wells_sorted = sort (map fst ms), i_flat = build ms\<rparr>"


record well_summary =
  s_well_key :: string
  s_well_id :: string
  s_bucket_counts :: "(string \<times> int) list"
  s_total_files :: int
  s_foreign_reference_count :: int

text \<open>
  \<^verbatim>\<open>ManifestIndex.summary\<close>, \<^verbatim>\<open>buckets\<close> and \<^verbatim>\<open>foreign_refs\<close> read
  \<^verbatim>\<open>self.manifests[well_key]\<close>, which raises \<^verbatim>\<open>KeyError\<close> for an unknown key: the
  result \<open>None\<close>.
\<close>

definition idx_summary :: "manifest_index \<Rightarrow> string \<Rightarrow> well_summary option" where
  "idx_summary idx well_key =
     (case map_of (i_manifests idx) well_key of
        None \<Rightarrow> None
      | Some m \<Rightarrow>
          let well_id = (if m_well_id m \<noteq> [] then m_well_id m
                         else replace CHR ''_'' CHR ''/'' well_key);
              bucket_counts =
                (case m_bucket_counts m of
                   None \<Rightarrow> map (\<lambda>(k, v). (k, int (length v))) (m_buckets m)
                 | Some bc \<Rightarrow>
                     if bc \<noteq> [] then bc
                     else map (\<lambda>(k, v). (k, int (length v))) (m_buckets m));
              total_files = sum_list (map snd bucket_counts);
              foreign_count =
                int (length (case m_foreign_ref m of None \<Rightarrow> [] | Some refs \<Rightarrow> refs))
          in Some \<lparr>s_well_key = well_key, s_well_id = well_id,
                   s_bucket_counts = bucket_counts, s_total_files = total_files,
                   s_foreign_reference_count = foreign_count\<rparr>)"

definition idx_buckets :: "manifest_index \<Rightarrow> string \<Rightarrow> string list option" where
  "idx_buckets idx well_key =
     (case map_of (i_manifests idx) well_key of
        None \<Rightarrow> None
      | Some m \<Rightarrow> Some (sort (map fst (m_buckets m))))"

text \<open>
  \<^verbatim>\<open>ManifestIndex.bucket_files\<close> returns a list for every argument. The result type is
  optional here because its caller tests the result against \<^verbatim>\<open>None\<close>.
\<close>

definition idx_bucket_files :: "manifest_index \<Rightarrow> string \<Rightarrow> string \<Rightarrow> search_hit list option" where
  "idx_bucket_files idx well_key bucket =
     Some (filter (\<lambda>h. h_well_key h = well_key \<and> h_bucket h = bucket) (i_flat idx))"

definition idx_foreign_refs :: "manifest_index \<Rightarrow> string \<Rightarrow> string list option" where
  "idx_foreign_refs idx well_key =
     (case map_of (i_manifests idx) well_key of
        None \<Rightarrow> None
      | Some m \<Rightarrow> Some (case m_foreign_ref m of None \<Rightarrow> [] | Some refs \<Rightarrow> refs))"

text \<open>
  The filter argument of a search is optional; the tests \<^verbatim>\<open>if well_key and ...\<close> and
  \<^verbatim>\<open>if bucket and ...\<close> treat the empty string like an absent filter.
\<close>

definition filter_rejects :: "string option \<Rightarrow> string \<Rightarrow> bool" where
  "filter_rejects f v = (case f of None \<Rightarrow> False | Some k \<Rightarrow> k \<noteq> [] \<and> v \<noteq> k)"

text \<open>The text tests of the closure \<^verbatim>\<open>hit\<close> in \<^verbatim>\<open>ManifestIndex.search\<close>, in source order.\<close>

definition text_match :: "string \<Rightarrow> search_hit \<Rightarrow> bool" where
  "text_match qn h =
     (if str_in qn (lower (h_filename h)) then True
      else if str_in qn (lower (h_path h)) then True
      else if str_in qn (lower (h_bucket h)) then True
      else if str_in qn (lower (h_well_key h)) then True
      else if str_in qn (lower (h_well_id h)) then True
      else if list_ex (\<lambda>t. str_in qn (lower t)) (h_tags h) then True
      else
        let q_slash = replace CHR ''_'' CHR ''/'' qn in
        if q_slash \<noteq> qn \<and>
           (str_in q_slash (lower (h_well_id h)) \<or> str_in q_slash (lower (h_path h)))
        then True
        else False)"

definition hit :: "string \<Rightarrow> string option \<Rightarrow> string option \<Rightarrow> search_hit \<Rightarrow> bool" where
  "hit qn well_key bucket h =
     (if filter_rejects well_key (h_well_key h) then False
      else if filter_rejects bucket (h_bucket h) then False
      else text_match qn h)"

text \<open>
  \<^verbatim>\<open>matches[offset : offset + limit]\<close> for a non-negative offset and limit is
  \<open>take limit (drop offset matches)\<close>; the request parameters are declared \<^verbatim>\<open>ge=0\<close> and
  \<^verbatim>\<open>ge=1\<close>, and the API calls the index with \<^verbatim>\<open>offset=0\<close>.
\<close>

definition idx_search ::
  "manifest_index \<Rightarrow> string \<Rightarrow> string option \<Rightarrow> string option \<Rightarrow> nat \<Rightarrow> nat
   \<Rightarrow> nat \<times> search_hit list" where
  "idx_search idx q well_key bucket limit offset =
     (let qn = lower (strip q) in
      if qn = [] then (0, [])
      else
        let matches = filter (hit qn well_key bucket) (i_flat idx);
            total = length matches;
            page = take limit (drop offset matches)
        in (total, page))"

section \<open>The query API over the index (api.py)\<close>

text \<open>
  The module keeps the index in the global \<^verbatim>\<open>_INDEX\<close>, which is \<^verbatim>\<open>None\<close> until
  \<^verbatim>\<open>init_app\<close> has run; every endpoint takes it as its first argument here. An
  \<^verbatim>\<open>HTTPException\<close> is the left summand of the result, with its status code and detail.
\<close>

datatype http_exception = HTTPException nat string

definition get_index :: "manifest_index option \<Rightarrow> http_exception + manifest_index" where
  "get_index INDEX =
     (case INDEX of
        None \<Rightarrow> Inl (HTTPException 500 ''Manifests not loaded'')
      | Some idx \<Rightarrow> Inr idx)"

definition hit_to_entry :: "search_hit \<Rightarrow> file_entry" where
  "hit_to_entry h =
     \<lparr>e_type = h_type h, e_well_key = h_well_key h, e_well_id = h_well_id h,
      e_bucket = h_bucket h, e_path = h_path h, e_filename = h_filename h,
      e_tags = h_tags h\<rparr>"

text \<open>
  \<^verbatim>\<open>_dedupe_results\<close>: the key of an entry, and the loop over the results with its set
  \<^verbatim>\<open>seen\<close> and its output list \<^verbatim>\<open>out\<close>.
\<close>

definition dedupe_k :: "string \<Rightarrow> file_entry \<Rightarrow> string" where
  "dedupe_k key r = (if key = ''path'' then e_path r else e_well_key r @ ''::'' @ e_filename r)"

fun dedupe_loop :: "string \<Rightarrow> file_entry list \<Rightarrow> string set \<Rightarrow> file_entry list \<Rightarrow> file_entry list" where
  "dedupe_loop key [] seen out = out"
| "dedupe_loop key (r # results) seen out =
     (let k = dedupe_k key r in
      if k \<in> seen then dedupe_loop key results seen out
      else dedupe_loop key results (insert k seen) (out @ [r]))"

definition dedupe_results :: "file_entry list \<Rightarrow> string \<Rightarrow> file_entry list" where
  "dedupe_results results key = dedupe_loop key results {} []"

definition well_summary :: "manifest_index option \<Rightarrow> string \<Rightarrow> http_exception + well_summary" where
  "well_summary INDEX well_key =
     (case get_index INDEX of
        Inl err \<Rightarrow> Inl err
      | Inr idx \<Rightarrow>
          if well_key \<notin> fst ` set (i_manifests idx)
          then Inl (HTTPException 404 ''Unknown well_key'')
          else
            (case idx_summary idx well_key of
               None \<Rightarrow> Inl (HTTPException 500 ''KeyError'')
             | Some s \<Rightarrow> Inr s))"

record bucket_files_response =
  bf_well_key :: string
  bf_bucket :: string
  bf_total :: nat
  bf_offset :: nat
  bf_limit :: nat
  bf_files :: "file_entry list"

definition bucket_files ::
  "manifest_index option \<Rightarrow> string \<Rightarrow> string \<Rightarrow> nat \<Rightarrow> nat
   \<Rightarrow> http_exception + bucket_files_response" where
  "bucket_files INDEX well_key bucket_name limit offset =
     (case get_index INDEX of
        Inl err \<Rightarrow> Inl err
      | Inr idx \<Rightarrow>
          if well_key \<notin> fst ` set (i_manifests idx)
          then Inl (HTTPException 404 ''Unknown well_key'')
          else
            (case idx_bucket_files idx well_key bucket_name of
               None \<Rightarrow> Inl (HTTPException 404 ''Unknown bucket for this well'')
             | Some hits \<Rightarrow>
                 Inr \<lparr>bf_well_key = well_key, bf_bucket = bucket_name,
                      bf_total = length hits, bf_offset = offset, bf_limit = limit,
                      bf_files = map hit_to_entry (take limit (drop offset hits))\<rparr>))"

record search_response =
  r_query :: string
  r_filters :: "(string \<times> string option) list"
  r_total :: nat
  r_offset :: nat
  r_limit :: nat
  r_results :: "file_entry list"

definition search ::
  "manifest_index option \<Rightarrow> string \<Rightarrow> string option \<Rightarrow> string option \<Rightarrow> nat \<Rightarrow> nat
   \<Rightarrow> bool \<Rightarrow> bool \<Rightarrow> string \<Rightarrow> http_exception + search_response" where
  "search INDEX q well_key bucket limit offset include_dirs dedupe dedupe_key =
     (case get_index INDEX of
        Inl err \<Rightarrow> Inl err
      | Inr idx \<Rightarrow>
          let (total_hits, hits) = idx_search idx q well_key bucket 999999 0;
              results = map hit_to_entry
                          (filter (\<lambda>h. include_dirs \<or> h_type h \<noteq> Directory) hits);
              results = (if dedupe then dedupe_results results dedupe_key else results);
              total = length results;
              page = take limit (drop offset results)
          in Inr \<lparr>r_query = q,
                  r_filters = [(''well_key'', well_key), (''bucket'', bucket)],
                  r_total = total, r_offset = offset, r_limit = limit,
                  r_results = page\<rparr>)"

section \<open>The query API of the package (src/volve_query/api.py)\<close>

text \<open>
  The package's own module serves the same endpoints from the global dictionary
  \<^verbatim>\<open>_MANIFESTS\<close>, without an index. Its functions carry the prefix \<open>pkg_\<close>; its
  \<^verbatim>\<open>_dedupe_results\<close> is the function above, line for line.
\<close>

fun pkg_split_tags :: "raw_tags \<Rightarrow> string list" where
  "pkg_split_tags TagsNone = []"
| "pkg_split_tags (TagsList raw) = filter (\<lambda>x. strip x \<noteq> []) raw"
| "pkg_split_tags (TagsStr raw) =
     (let s = strip raw in
      if s = [] then []
      else
        let parts =
              (if CHR ''|'' \<in> set s then map strip (split_on CHR ''|'' s)
               else if CHR '','' \<in> set s then map strip (split_on CHR '','' s)
               else [s])
        in filter (\<lambda>p. p \<noteq> []) parts)"

definition pkg_foreign_ref_count :: "manifest \<Rightarrow> int" where
  "pkg_foreign_ref_count m =
     (case m_foreign_ref m of
        Some refs \<Rightarrow> int (length refs)
      | None \<Rightarrow>
          sum_list (map (\<lambda>(b, nodes).
                      sum_list (map (\<lambda>n. int (length (n_foreign_ref_wells n))) nodes))
                    (m_buckets m)))"

definition pkg_bucket_counts :: "manifest \<Rightarrow> (string \<times> int) list" where
  "pkg_bucket_counts m = map (\<lambda>(b, nodes). (b, int (length nodes))) (m_buckets m)"

definition pkg_ensure_loaded :: "(string \<times> manifest) list \<Rightarrow> http_exception + unit" where
  "pkg_ensure_loaded MANIFESTS =
     (if MANIFESTS = [] then Inl (HTTPException 500 ''Manifests not loaded'') else Inr ())"

definition pkg_well_summary ::
  "(string \<times> manifest) list \<Rightarrow> string \<Rightarrow> http_exception + well_summary" where
  "pkg_well_summary MANIFESTS well_key =
     (case pkg_ensure_loaded MANIFESTS of
        Inl err \<Rightarrow> Inl err
      | Inr _ \<Rightarrow>
          (case map_of MANIFESTS well_key of
             None \<Rightarrow> Inl (HTTPException 404 ''Unknown well_key'')
           | Some m \<Rightarrow>
               let counts = pkg_bucket_counts m;
                   total_files = sum_list (map snd counts)
               in Inr \<lparr>s_well_key = well_key, s_well_id = m_well_id m,
                       s_bucket_counts = counts, s_total_files = total_files,
                       s_foreign_reference_count = pkg_foreign_ref_count m\<rparr>))"

definition pkg_bucket_files ::
  "(string \<times> manifest) list \<Rightarrow> string \<Rightarrow> string \<Rightarrow> nat \<Rightarrow> nat
   \<Rightarrow> http_exception + bucket_files_response" where
  "pkg_bucket_files MANIFESTS well_key bucket_name limit offset =
     (case pkg_ensure_loaded MANIFESTS of
        Inl err \<Rightarrow> Inl err
      | Inr _ \<Rightarrow>
          (case map_of MANIFESTS well_key of
             None \<Rightarrow> Inl (HTTPException 404 ''Unknown well_key'')
           | Some m \<Rightarrow>
               (case map_of (m_buckets m) bucket_name of
                  None \<Rightarrow> Inl (HTTPException 404 ''Unknown bucket for this well'')
                | Some nodes \<Rightarrow>
                    Inr \<lparr>bf_well_key = well_key, bf_bucket = bucket_name,
                         bf_total = length nodes, bf_offset = offset, bf_limit = limit,
                         bf_files =
                           map (\<lambda>n. \<lparr>e_type = n_type n, e_well_key = well_key,
                                      e_well_id = m_well_id m, e_bucket = bucket_name,
                                      e_path = n_path n, e_filename = n_name n,
                                      e_tags = pkg_split_tags (n_tags n)\<rparr>)
                             (take limit (drop offset nodes))\<rparr>)))"

text \<open>\<^verbatim>\<open>sep.join(xs)\<close>.\<close>

fun join :: "string \<Rightarrow> string list \<Rightarrow> string" where
  "join sep [] = []"
| "join sep [x] = x"
| "join sep (x # y # ys) = x @ sep @ join sep (y # ys)"

definition pkg_iter_node ::
  "string \<Rightarrow> bool \<Rightarrow> string \<Rightarrow> manifest \<Rightarrow> string \<Rightarrow> manifest_node \<Rightarrow> file_entry list" where
  "pkg_iter_node q_l include_dirs wk m bname n =
     (if \<not> include_dirs \<and> n_type n = Directory then []
      else
        let filename = n_name n;
            path = n_path n;
            tags_list = pkg_split_tags (n_tags n);
            hay = lower (join '' '' [wk, m_well_id m, bname, filename, path, join '' '' tags_list])
        in if q_l \<noteq> [] \<and> \<not> str_in q_l hay then []
           else [\<lparr>e_type = n_type n, e_well_key = wk, e_well_id = m_well_id m,
                  e_bucket = bname, e_path = path, e_filename = filename,
                  e_tags = tags_list\<rparr>])"

definition pkg_iter_entries ::
  "(string \<times> manifest) list \<Rightarrow> string \<Rightarrow> string option \<Rightarrow> string option \<Rightarrow> bool
   \<Rightarrow> file_entry list" where
  "pkg_iter_entries MANIFESTS q well_key bucket include_dirs =
     (let q_l = strip (lower q) in
      concat (map (\<lambda>(wk, m).
        if filter_rejects well_key wk then []
        else concat (map (\<lambda>(bname, nodes).
          if filter_rejects bucket bname then []
          else concat (map (pkg_iter_node q_l include_dirs wk m bname) nodes))
          (m_buckets m)))
        MANIFESTS))"

definition pkg_search ::
  "(string \<times> manifest) list \<Rightarrow> string \<Rightarrow> string option \<Rightarrow> string option \<Rightarrow> nat \<Rightarrow> nat
   \<Rightarrow> bool \<Rightarrow> bool \<Rightarrow> string \<Rightarrow> http_exception + search_response" where
  "pkg_search MANIFESTS q well_key bucket limit offset include_dirs dedupe dedupe_key =
     (case pkg_ensure_loaded MANIFESTS of
        Inl err \<Rightarrow> Inl err
      | Inr _ \<Rightarrow>
          let all_results = pkg_iter_entries MANIFESTS q well_key bucket include_dirs;
              all_results = (if dedupe then dedupe_results all_results dedupe_key
                             else all_results);
              total = length all_results;
              page = take limit (drop offset all_results)
          in Inr \<lparr>r_query = q,
                  r_filters = [(''well_key'', well_key), (''bucket'', bucket)],
                  r_total = total, r_offset = offset, r_limit = limit,
                  r_results = page\<rparr>)"

section \<open>The loader (loader.py)\<close>

text \<open>
  The file system under the wells directory: a regular file carries the outcome of
  \<^verbatim>\<open>_read_json\<close> followed by \<^verbatim>\<open>Manifest.model_validate\<close> on it (\<open>None\<close> when either
  raises), a folder its children by name, in the order \<^verbatim>\<open>iterdir\<close> lists them. Paths
  of one directory sort by their names.
\<close>

datatype fs_node = RegularFile "manifest option" | Folder "(string \<times> fs_node) list"

datatype load_error = FileNotFoundError | NotADirectoryError | RuntimeError | ManifestError

fun is_dir :: "fs_node \<Rightarrow> bool" where
  "is_dir (Folder children) = True"
| "is_dir (RegularFile payload) = False"

fun is_file :: "fs_node \<Rightarrow> bool" where
  "is_file (RegularFile payload) = True"
| "is_file (Folder children) = False"

fun children_of :: "fs_node \<Rightarrow> (string \<times> fs_node) list" where
  "children_of (Folder children) = children"
| "children_of (RegularFile payload) = []"

fun read_manifest :: "fs_node \<Rightarrow> load_error + manifest" where
  "read_manifest (RegularFile (Some m)) = Inr m"
| "read_manifest (RegularFile None) = Inl ManifestError"
| "read_manifest (Folder children) = Inl ManifestError"

text \<open>\<^verbatim>\<open>glob("*.json")\<close> selects the names that end in \<^verbatim>\<open>.json\<close>.\<close>

definition glob_json :: "(string \<times> fs_node) list \<Rightarrow> (string \<times> fs_node) list" where
  "glob_json children = filter (\<lambda>(name, f). suffix ''.json'' name) children"

text \<open>
  \<^verbatim>\<open>Path.stem\<close>: the name without its suffix, where the suffix starts at the last dot
  unless that dot is the first or the last character of the name.
\<close>

definition stem :: "string \<Rightarrow> string" where
  "stem name =
     (let after = rev (takeWhile (\<lambda>c. c \<noteq> CHR ''.'') (rev name));
          i = length name - length after - 1
      in if CHR ''.'' \<in> set name \<and> 0 < i \<and> i < length name - 1 then take i name else name)"

text \<open>
  \<^verbatim>\<open>sorted([p for p in base.iterdir() if p.is_dir()])\<close> and
  \<^verbatim>\<open>sorted([p for p in base.glob("*.json") if p.is_file()])\<close>.
\<close>

definition subdirs_of :: "(string \<times> fs_node) list \<Rightarrow> (string \<times> fs_node) list" where
  "subdirs_of children = sort_key fst (filter (\<lambda>(name, p). is_dir p) children)"

definition json_files_of :: "(string \<times> fs_node) list \<Rightarrow> (string \<times> fs_node) list" where
  "json_files_of children = sort_key fst (filter (\<lambda>(name, p). is_file p) (glob_json children))"

definition preferred :: "string list" where
  "preferred = [''manifest.json'', ''manifest.normalized.json'', ''normalized_manifest.json'',
                ''manifest_normalized.json'', ''index.json'']"

fun first_preferred :: "string list \<Rightarrow> (string \<times> fs_node) list \<Rightarrow> fs_node option" where
  "first_preferred [] children = None"
| "first_preferred (name # names) children =
     (case map_of children name of
        Some p \<Rightarrow> if is_file p then Some p else first_preferred names children
      | None \<Rightarrow> first_preferred names children)"

definition find_manifest_json_in_well_dir :: "fs_node \<Rightarrow> fs_node option" where
  "find_manifest_json_in_well_dir well_dir =
     (case first_preferred preferred (children_of well_dir) of
        Some p \<Rightarrow> Some p
      | None \<Rightarrow>
          (case json_files_of (children_of well_dir) of
             [] \<Rightarrow> None
           | (name, p) # json_files \<Rightarrow> Some p))"

definition normalize_loaded_key :: "string \<Rightarrow> manifest \<Rightarrow> string" where
  "normalize_loaded_key folder_name m =
     (if folder_name \<noteq> [] \<and> strip folder_name \<noteq> [] then strip folder_name
      else strip (replace CHR ''/'' CHR ''_'' (m_well_id m)))"

text \<open>The loop of case A over the sorted subfolders, and the loop of case B over the sorted files.\<close>

fun load_subdirs ::
  "(string \<times> fs_node) list \<Rightarrow> (string \<times> manifest) list
   \<Rightarrow> load_error + (string \<times> manifest) list" where
  "load_subdirs [] manifests = Inr manifests"
| "load_subdirs ((dir_name, well_dir) # subdirs) manifests =
     (case find_manifest_json_in_well_dir well_dir of
        None \<Rightarrow> load_subdirs subdirs manifests
      | Some manifest_path \<Rightarrow>
          (case read_manifest manifest_path of
             Inl err \<Rightarrow> Inl err
           | Inr m \<Rightarrow>
               load_subdirs subdirs (dict_set manifests (normalize_loaded_key dir_name m) m)))"

fun load_json_files ::
  "(string \<times> fs_node) list \<Rightarrow> (string \<times> manifest) list
   \<Rightarrow> load_error + (string \<times> manifest) list" where
  "load_json_files [] manifests = Inr manifests"
| "load_json_files ((file_name, jf) # json_files) manifests =
     (case read_manifest jf of
        Inl err \<Rightarrow> Inl err
      | Inr m \<Rightarrow> load_json_files json_files (dict_set manifests (stem file_name) m))"

text \<open>
  The argument is what the path \<^verbatim>\<open>wells_dir\<close> names: nothing, a file or a folder.
\<close>

definition case_b ::
  "(string \<times> fs_node) list \<Rightarrow> (string \<times> manifest) list
   \<Rightarrow> load_error + (string \<times> manifest) list" where
  "case_b children manifests =
     (let json_files = json_files_of children in
      case load_json_files json_files manifests of
        Inl err \<Rightarrow> Inl err
      | Inr manifests' \<Rightarrow> if manifests' = [] then Inl RuntimeError else Inr manifests')"

definition load_manifests_from_wells_dir ::
  "fs_node option \<Rightarrow> load_error + (string \<times> manifest) list" where
  "load_manifests_from_wells_dir base =
     (case base of
        None \<Rightarrow> Inl FileNotFoundError
      | Some (RegularFile payload) \<Rightarrow> Inl NotADirectoryError
      | Some (Folder children) \<Rightarrow>
          let subdirs = subdirs_of children in
          if subdirs \<noteq> [] then
            (case load_subdirs subdirs [] of
               Inl err \<Rightarrow> Inl err
             | Inr manifests \<Rightarrow>
                 if manifests \<noteq> [] then Inr manifests else case_b children manifests)
          else case_b children [])"

definition init_app :: "fs_node option \<Rightarrow> load_error + manifest_index" where
  "init_app wells_dir =
     (case load_manifests_from_wells_dir wells_dir of
        Inl err \<Rightarrow> Inl err
      | Inr manifests \<Rightarrow> Inr (ManifestIndex manifests))"

section \<open>Example data\<close>

text \<open>
  A well \<^verbatim>\<open>A\<close> with one bucket \<^verbatim>\<open>docs\<close> that holds the node
  \<^verbatim>\<open>{path: "a/b.txt", name: "b.txt", tags: "X|Y"}\<close>, which refers to well \<^verbatim>\<open>B\<close>, and a
  second node without a path. The manifest records neither bucket counts nor a per-well
  list of foreign references.
\<close>

definition example_node :: manifest_node where
  "example_node =
     \<lparr>n_path = ''a/b.txt'', n_name = ''b.txt'', n_type = File,
      n_tags = TagsStr ''X|Y'', n_foreign_ref_wells = [''B'']\<rparr>"

definition example_manifest :: manifest where
  "example_manifest =
     \<lparr>m_well_id = ''A'',
      m_buckets = [(''docs'', [example_node, example_node\<lparr>n_path := []\<rparr>])],
      m_bucket_counts = None, m_foreign_ref = None\<rparr>"

definition example_hit :: search_hit where
  "example_hit =
     \<lparr>h_type = File, h_well_key = ''A'', h_well_id = ''A'', h_bucket = ''docs'',
      h_path = ''a/b.txt'', h_filename = ''b.txt'', h_tags = [''X'', ''Y'']\<rparr>"

text \<open>A second manifest, loaded under the key \<^verbatim>\<open>W1\<close>, whose well id is written with a slash.\<close>

definition slash_manifest :: manifest where
  "slash_manifest =
     \<lparr>m_well_id = ''15/9-F-9A'', m_buckets = [(''docs'', [example_node])],
      m_bucket_counts = None, m_foreign_ref = None\<rparr>"

text \<open>A manifest whose bucket holds the example node a million times.\<close>

definition big_manifest :: manifest where
  "big_manifest =
     \<lparr>m_well_id = ''A'', m_buckets = [(''docs'', replicate 1000000 example_node)],
      m_bucket_counts = None, m_foreign_ref = None\<rparr>"



text \<open>
  Four wells directories: one with a well folder and a file \<^verbatim>\<open>W.json\<close> that cannot be
  read as a manifest; one with a folder that holds no file and a readable \<^verbatim>\<open>W.json\<close>;
  one with the well folders \<^verbatim>\<open>A\<close> and \<^verbatim>\<open>A\<close> followed by a space; and one with the
  well folder \<^verbatim>\<open>A\<close> and a folder whose name is a single space.
\<close>

definition dir_with_unread_file :: "(string \<times> fs_node) list" where
  "dir_with_unread_file =
     [(''W.json'', RegularFile None),
      (''A'', Folder [(''manifest.json'', RegularFile (Some example_manifest))])]"

definition dir_with_empty_subfolder :: "(string \<times> fs_node) list" where
  "dir_with_empty_subfolder =
     [(''W.json'', RegularFile (Some example_manifest)), (''empty'', Folder [])]"

definition dir_with_clashing_names :: "(string \<times> fs_node) list" where
  "dir_with_clashing_names =
     [(''A '', Folder [(''manifest.json'', RegularFile (Some slash_manifest))]),
      (''A'', Folder [(''manifest.json'', RegularFile (Some example_manifest))])]"

definition dir_with_blank_name :: "(string \<times> fs_node) list" where
  "dir_with_blank_name =
     [(''A'', Folder [(''manifest.json'', RegularFile (Some slash_manifest))]),
      ('' '', Folder [(''manifest.json'', RegularFile (Some example_manifest))])]"

section \<open>Reference definitions\<close>



text \<open>
  The final list of a search in the order the specification gives: (1) directory exclusion,
  (2) the well key filter, (3) the bucket filter, (4) the text match, then deduplication.
  Each step is the test the source makes.
\<close>

definition final_list ::
  "manifest_index \<Rightarrow> string \<Rightarrow> string option \<Rightarrow> string option \<Rightarrow> bool \<Rightarrow> bool \<Rightarrow> string
   \<Rightarrow> file_entry list" where
  "final_list idx q wellKey bucket includeDirectories dedupe dedupeKey =
     (let qn = lower (strip q);
          step1 = filter (\<lambda>h. includeDirectories \<or> h_type h \<noteq> Directory) (i_flat idx);
          step2 = filter (\<lambda>h. \<not> filter_rejects wellKey (h_well_key h)) step1;
          step3 = filter (\<lambda>h. \<not> filter_rejects bucket (h_bucket h)) step2;
          step4 = filter (text_match qn) step3;
          entries = map hit_to_entry step4
      in if dedupe then dedupe_results entries dedupeKey else entries)"

text \<open>
  Tag normalisation as the specification words it: a string is split on the bar, and on
  the comma only when it holds no bar.
\<close>

definition spec_split_tags :: "raw_tags \<Rightarrow> string list" where
  "spec_split_tags raw =
     (case raw of
        TagsNone \<Rightarrow> []
      | TagsList ts \<Rightarrow> filter (\<lambda>t. t \<noteq> []) (map strip ts)
      | TagsStr s \<Rightarrow>
          filter (\<lambda>t. t \<noteq> [])
            (map strip (if CHR ''|'' \<in> set s then split_on CHR ''|'' s
                        else split_on CHR '','' s)))"

text \<open>
  The foreign reference count as the specification words it: the length of the manifest's
  own list when it records one, and otherwise the number of foreign references of all
  nodes of all buckets.
\<close>

definition spec_foreign_reference_count :: "manifest \<Rightarrow> int" where
  "spec_foreign_reference_count m =
     (case m_foreign_ref m of
        Some refs \<Rightarrow> int (length refs)
      | None \<Rightarrow>
          int (length (concat (map n_foreign_ref_wells (concat (map snd (m_buckets m)))))))"

section \<open>The index builder\<close>

lemma build_nodes_path: "h \<in> set (build_nodes wk wid b es) \<Longrightarrow> h_path h \<noteq> []"
  by (induction es) (auto simp: Let_def split: if_splits)

lemma build_buckets_path: "h \<in> set (build_buckets wk wid bs) \<Longrightarrow> h_path h \<noteq> []"
  by (induction wk wid bs rule: build_buckets.induct) (auto dest: build_nodes_path)

lemma build_path: "h \<in> set (build ms) \<Longrightarrow> h_path h \<noteq> []"
  by (induction ms rule: build.induct) (auto simp: Let_def dest: build_buckets_path)

lemma build_nodes_paths:
  "map h_path (build_nodes wk wid b es) = filter (\<lambda>p. p \<noteq> []) (map n_path es)"
  by (induction es) (simp_all add: Let_def)

lemma build_buckets_paths:
  "map h_path (build_buckets wk wid bs)
     = filter (\<lambda>p. p \<noteq> []) (map n_path (concat (map snd bs)))"
  by (induction wk wid bs rule: build_buckets.induct) (simp_all add: build_nodes_paths)

lemma build_paths:
  "map h_path (build ms)
     = filter (\<lambda>p. p \<noteq> [])
         (map n_path (concat (map snd (concat (map (\<lambda>(well_key, m). m_buckets m) ms)))))"
  by (induction ms rule: build.induct) (simp_all add: Let_def build_buckets_paths)

lemma example_flat: "i_flat (ManifestIndex [(''A'', example_manifest)]) = [example_hit]"
  by code_simp

text \<open>
  C9. Whatever mapping of manifests the index is built from, every entry of its flat list
  has a non-empty path: a node with an empty path is skipped by the builder. The paths of
  the flat list are the non-empty paths of the nodes, in the order of the manifests.
\<close>

theorem flat_paths_nonempty:
  "(\<forall>h \<in> set (i_flat (ManifestIndex ms)). h_path h \<noteq> []) \<and>
   map h_path (i_flat (ManifestIndex ms))
     = filter (\<lambda>p. p \<noteq> [])
         (map n_path (concat (map snd (concat (map (\<lambda>(well_key, m). m_buckets m) ms)))))"
  by (auto simp: ManifestIndex_def build_paths dest: build_path)

theorem flat_paths_nonempty_witness:
  "i_flat (ManifestIndex [(''A'', example_manifest)]) = [example_hit] \<and>
   h_path (hd (i_flat (ManifestIndex [(''A'', example_manifest)]))) \<noteq> [] \<and>
   map n_path (concat (map snd (m_buckets example_manifest))) = [''a/b.txt'', []]"
proof -
  have "map n_path (concat (map snd (m_buckets example_manifest))) = [''a/b.txt'', []]"
    by (simp add: example_manifest_def example_node_def)
  with flat_paths_nonempty [of "[(''A'', example_manifest)]"] show ?thesis
    by (simp add: example_flat)
qed

section \<open>Tag normalisation\<close>

lemma strip_prefix_of_dropWhile:
  "dropWhile is_space s = strip s @ rev (takeWhile is_space (rev (dropWhile is_space s)))"
proof -
  have "dropWhile is_space s
        = rev (takeWhile is_space (rev (dropWhile is_space s))
               @ dropWhile is_space (rev (dropWhile is_space s)))"
    by (simp only: takeWhile_dropWhile_id rev_rev_ident)
  then show ?thesis by (simp only: rev_append strip_def)
qed

lemma strip_hd: "strip s \<noteq> [] \<Longrightarrow> \<not> is_space (hd (strip s))"
proof -
  assume ne: "strip s \<noteq> []"
  then have d: "dropWhile is_space s \<noteq> []"
    by (cases "dropWhile is_space s = []") (simp_all add: strip_def)
  have "hd (dropWhile is_space s) = hd (strip s)"
    using ne by (subst strip_prefix_of_dropWhile) simp
  moreover have "\<not> is_space (hd (dropWhile is_space s))"
    using d by (rule hd_dropWhile)
  ultimately show ?thesis by simp
qed

lemma strip_last: "strip s \<noteq> [] \<Longrightarrow> \<not> is_space (last (strip s))"
proof -
  assume ne: "strip s \<noteq> []"
  then have d: "dropWhile is_space (rev (dropWhile is_space s)) \<noteq> []" by (simp add: strip_def)
  have "last (strip s) = hd (dropWhile is_space (rev (dropWhile is_space s)))"
    using d by (simp add: strip_def last_rev)
  moreover have "\<not> is_space (hd (dropWhile is_space (rev (dropWhile is_space s))))"
    using d by (rule hd_dropWhile)
  ultimately show ?thesis by simp
qed

lemma strip_id: 
  assumes "s = [] \<or> (\<not> is_space (hd s) \<and> \<not> is_space (last s))"
  shows "strip s = s"
proof (cases "s = []")
  case True
  then show ?thesis by (simp add: strip_def)
next
  case False
  with assms have h: "\<not> is_space (hd s)" and l: "\<not> is_space (last s)" by auto
  from False h have "dropWhile is_space s = s" by (cases s) auto
  moreover from False l have "dropWhile is_space (rev s) = rev s"
    by (cases "rev s") (auto simp: last_rev [symmetric] hd_rev)
  ultimately show ?thesis by (simp add: strip_def)
qed

lemma strip_strip: "strip (strip s) = strip s"
  by (rule strip_id) (auto dest: strip_hd strip_last)

lemma split_where_replace:
  "split_where (\<lambda>c. c = b) (replace a b s) = split_where (\<lambda>c. c = a \<or> c = b) s"
  by (induction s) (auto simp: replace_def)

lemma split_where_no_sep: "\<forall>c \<in> set s. \<not> P c \<Longrightarrow> split_where P s = [s]"
  by (induction s) auto

lemma split_where_cong: "(\<And>c. c \<in> set s \<Longrightarrow> P c = Q c) \<Longrightarrow> split_where P s = split_where Q s"
  by (induction s) auto

lemma split_tags_normal_form:
  "split_tags TagsNone = []"
  "split_tags (TagsList ts) = filter (\<lambda>t. t \<noteq> []) (map strip ts)"
  "split_tags (TagsStr s) =
     filter (\<lambda>t. t \<noteq> []) (map strip (split_where (\<lambda>c. c = CHR '','' \<or> c = CHR ''|'') s))"
  by (simp_all add: filter_map comp_def split_on_def split_where_replace)

lemma split_tags_trimmed:
  "t \<in> set (split_tags raw) \<Longrightarrow> t \<noteq> [] \<and> strip t = t"
  by (cases raw) (auto simp: split_tags_normal_form(2,3) strip_strip simp del: split_tags.simps(2,3))

lemma split_tags_single_kind:
  "CHR '','' \<notin> set s \<Longrightarrow> split_tags (TagsStr s) = spec_split_tags (TagsStr s)"
  "CHR ''|'' \<notin> set s \<Longrightarrow> split_tags (TagsStr s) = spec_split_tags (TagsStr s)"
proof -
  assume "CHR '','' \<notin> set s"
  then have "split_where (\<lambda>c. c = CHR '','' \<or> c = CHR ''|'') s = split_where (\<lambda>c. c = CHR ''|'') s"
    by (intro split_where_cong) auto
  moreover have "CHR ''|'' \<notin> set s \<Longrightarrow> split_where (\<lambda>c. c = CHR ''|'') s = split_where (\<lambda>c. c = CHR '','') s"
    using \<open>CHR '','' \<notin> set s\<close> by (intro split_where_cong) auto
  ultimately show "split_tags (TagsStr s) = spec_split_tags (TagsStr s)"
    by (simp add: split_tags_normal_form(3) spec_split_tags_def split_on_def del: split_tags.simps(2,3))
next
  assume "CHR ''|'' \<notin> set s"
  then have "split_where (\<lambda>c. c = CHR '','' \<or> c = CHR ''|'') s = split_where (\<lambda>c. c = CHR '','') s"
    by (intro split_where_cong) auto
  with \<open>CHR ''|'' \<notin> set s\<close> show "split_tags (TagsStr s) = spec_split_tags (TagsStr s)"
    by (simp add: split_tags_normal_form(3) spec_split_tags_def split_on_def del: split_tags.simps(2,3))
qed

lemma split_tags_list_spec: "split_tags (TagsList ts) = spec_split_tags (TagsList ts)"
  by (simp add: split_tags_normal_form(2) spec_split_tags_def del: split_tags.simps(2,3))

lemma split_tags_single_token:
  assumes "CHR '','' \<notin> set s" and "CHR ''|'' \<notin> set s" and "strip s \<noteq> []"
  shows "split_tags (TagsStr s) = [strip s]"
proof -
  have "split_where (\<lambda>c. c = CHR '','' \<or> c = CHR ''|'') s = [s]"
    using assms(1,2) by (intro split_where_no_sep) auto
  with assms(3) show ?thesis
    by (simp add: split_tags_normal_form(3) del: split_tags.simps(2,3))
qed


lemma strip_leading_space: "is_space x \<Longrightarrow> strip (x # p) = strip p"
  by (simp add: strip_def)

lemma strip_leading_spaces: "\<forall>c \<in> set l. is_space c \<Longrightarrow> strip (l @ p) = strip p"
  by (induction l) (simp_all add: strip_leading_space)

lemma dropWhile_all: "\<forall>c \<in> set r. P c \<Longrightarrow> dropWhile P (r @ xs) = dropWhile P xs"
  by (induction r) simp_all

lemma strip_trailing_spaces:
  assumes "\<forall>c \<in> set r. is_space c"
  shows "strip (p @ r) = strip p"
proof -
  have r: "\<forall>c \<in> set (rev r). is_space c" using assms by simp
  show ?thesis
  proof (cases "\<forall>c \<in> set p. is_space c")
    case True
    with assms have "\<forall>c \<in> set (p @ r). is_space c" by auto
    then have "dropWhile is_space (p @ r) = []"
      by (simp only: dropWhile_eq_Nil_conv)
    then have a: "strip (p @ r) = []" by (simp only: strip_def) simp
    from True have "dropWhile is_space p = []"
      by (simp only: dropWhile_eq_Nil_conv)
    then have "strip p = []" by (simp only: strip_def) simp
    with a show ?thesis by simp
  next
    case False
    then obtain x where "x \<in> set p" and "\<not> is_space x" by blast
    then have "dropWhile is_space (p @ r) = dropWhile is_space p @ r"
      by (rule dropWhile_append1)
    then have "strip (p @ r) = rev (dropWhile is_space (rev r @ rev (dropWhile is_space p)))"
      by (simp add: strip_def)
    also have "\<dots> = rev (dropWhile is_space (rev (dropWhile is_space p)))"
      using r by (simp only: dropWhile_all)
    finally show ?thesis by (simp add: strip_def)
  qed
qed

lemma split_where_nonempty: "split_where P s \<noteq> []"
  by (induction s) (auto split: list.splits)

lemma split_where_leading:
  assumes "\<forall>c \<in> set l. is_space c" and "\<And>c. P c \<Longrightarrow> \<not> is_space c"
  shows "map strip (split_where P (l @ t)) = map strip (split_where P t)"
  using assms(1)
proof (induction l)
  case Nil
  then show ?case by simp
next
  case (Cons x l)
  then have x: "is_space x" and l: "\<forall>c \<in> set l. is_space c" by simp_all
  from x assms(2) have np: "\<not> P x" by blast
  obtain p ps where sp: "split_where P (l @ t) = p # ps"
    using split_where_nonempty [of P "l @ t"] by (cases "split_where P (l @ t)") auto
  have "map strip (split_where P ((x # l) @ t)) = strip (x # p) # map strip ps"
    using np sp by simp
  also have "\<dots> = map strip (split_where P (l @ t))"
    using x sp by (simp add: strip_leading_space)
  finally show ?case using Cons.IH [OF l] by simp
qed

lemma split_where_append_no_sep:
  assumes "\<forall>c \<in> set r. \<not> P c"
  shows "split_where P (t @ r) = butlast (split_where P t) @ [last (split_where P t) @ r]"
proof (induction t)
  case Nil
  from assms have "split_where P r = [r]" by (rule split_where_no_sep)
  then show ?case by simp
next
  case (Cons x t)
  obtain p ps where b: "split_where P t = p # ps"
    using split_where_nonempty [of P t] by (cases "split_where P t") auto
  show ?case
  proof (cases "P x")
    case True
    with Cons.IH show ?thesis by (simp add: split_where_nonempty)
  next
    case False
    with Cons.IH b show ?thesis by (cases ps) simp_all
  qed
qed

lemma split_where_trailing:
  assumes "\<forall>c \<in> set r. is_space c" and "\<And>c. P c \<Longrightarrow> \<not> is_space c"
  shows "map strip (split_where P (t @ r)) = map strip (split_where P t)"
proof -
  have "\<forall>c \<in> set r. \<not> P c" using assms by blast
  then have "split_where P (t @ r) = butlast (split_where P t) @ [last (split_where P t) @ r]"
    by (rule split_where_append_no_sep)
  then have "map strip (split_where P (t @ r))
           = map strip (butlast (split_where P t)) @ [strip (last (split_where P t))]"
    by (simp add: strip_trailing_spaces [OF assms(1)])
  also have "\<dots> = map strip (butlast (split_where P t) @ [last (split_where P t)])"
    by simp
  also have "butlast (split_where P t) @ [last (split_where P t)] = split_where P t"
    by (simp add: split_where_nonempty)
  finally show ?thesis .
qed

lemma strip_decompose:
  "\<exists>l r. s = l @ strip s @ r \<and> (\<forall>c \<in> set l. is_space c) \<and> (\<forall>c \<in> set r. is_space c)"
proof (intro exI conjI)
  show "s = takeWhile is_space s @ strip s @ rev (takeWhile is_space (rev (dropWhile is_space s)))"
    using strip_prefix_of_dropWhile [of s] takeWhile_dropWhile_id [of is_space s] by simp
  show "\<forall>c \<in> set (takeWhile is_space s). is_space c"
    by (auto dest: set_takeWhileD)
  show "\<forall>c \<in> set (rev (takeWhile is_space (rev (dropWhile is_space s)))). is_space c"
    by (auto dest: set_takeWhileD)
qed

lemma split_where_strip:
  assumes "\<And>c. P c \<Longrightarrow> \<not> is_space c"
  shows "map strip (split_where P (strip s)) = map strip (split_where P s)"
proof -
  obtain l r where s: "s = l @ strip s @ r"
    and l: "\<forall>c \<in> set l. is_space c" and r: "\<forall>c \<in> set r. is_space c"
    using strip_decompose [of s] by blast
  have "map strip (split_where P (l @ (strip s @ r))) = map strip (split_where P (strip s @ r))"
    using l assms by (rule split_where_leading)
  also have "\<dots> = map strip (split_where P (strip s))"
    using r assms by (rule split_where_trailing)
  finally show ?thesis using s by simp
qed

lemma in_set_strip_iff: "\<not> is_space c \<Longrightarrow> c \<in> set (strip s) \<longleftrightarrow> c \<in> set s"
proof -
  assume c: "\<not> is_space c"
  obtain l r where s: "s = l @ strip s @ r"
    and l: "\<forall>c \<in> set l. is_space c" and r: "\<forall>c \<in> set r. is_space c"
    using strip_decompose [of s] by blast
  have "set s = set l \<union> set (strip s) \<union> set r"
    by (subst s) auto
  with c l r show ?thesis by auto
qed

lemma bar_not_space: "\<not> is_space CHR ''|''"
  by code_simp

lemma comma_not_space: "\<not> is_space CHR '',''"
  by code_simp

lemma pkg_split_tags_str: "pkg_split_tags (TagsStr s) = spec_split_tags (TagsStr s)"
proof -
  have bar: "CHR ''|'' \<in> set (strip s) \<longleftrightarrow> CHR ''|'' \<in> set s"
    by (rule in_set_strip_iff) (rule bar_not_space)
  have comma: "CHR '','' \<in> set (strip s) \<longleftrightarrow> CHR '','' \<in> set s"
    by (rule in_set_strip_iff) (rule comma_not_space)
  have sb: "map strip (split_on CHR ''|'' (strip s)) = map strip (split_on CHR ''|'' s)"
    unfolding split_on_def by (rule split_where_strip) (simp add: bar_not_space)
  have sc: "map strip (split_on CHR '','' (strip s)) = map strip (split_on CHR '','' s)"
    unfolding split_on_def by (rule split_where_strip) (simp add: comma_not_space)
  have none: "CHR '','' \<notin> set s \<Longrightarrow> split_on CHR '','' s = [s]"
    unfolding split_on_def by (rule split_where_no_sep) auto
  have empty: "strip s = [] \<Longrightarrow> CHR ''|'' \<notin> set s \<and> CHR '','' \<notin> set s"
    using bar comma by auto
  show ?thesis
  proof (cases "strip s = []")
    case True
    with empty none show ?thesis
      by (simp add: spec_split_tags_def)
  next
    case False
    then show ?thesis
      by (auto simp: spec_split_tags_def Let_def bar comma sb sc none strip_strip)
  qed
qed

text \<open>
  The normaliser of the index agrees with the specification on an absent value, on a list
  and on a string that does not hold both separators, and all its tags are trimmed and not
  empty (\<open>split_tags_trimmed\<close>, \<open>split_tags_list_spec\<close>, \<open>split_tags_single_kind\<close>);
  the normaliser of the package agrees with the specification on every string
  (\<open>pkg_split_tags_str\<close>).

  C2 fails on the code, in one place for each of the two normalisers. The one of the index
  replaces every comma by a bar before it splits, so the string \<^verbatim>\<open>A|B,C\<close> gives three
  tags where the claim, and the normaliser of the package, give the two tags \<^verbatim>\<open>A\<close> and
  \<^verbatim>\<open>B,C\<close>. The one of the package tests the elements of a list trimmed and returns
  them as they are, where the claim, and the normaliser of the index, return them trimmed.
\<close>

theorem split_tags_mixed_separators:
  "split_tags (TagsStr ''A|B,C'') = [''A'', ''B'', ''C''] \<and>
   spec_split_tags (TagsStr ''A|B,C'') = [''A'', ''B,C''] \<and>
   pkg_split_tags (TagsStr ''A|B,C'') = [''A'', ''B,C''] \<and>
   pkg_split_tags (TagsList ['' A '']) = ['' A ''] \<and>
   spec_split_tags (TagsList ['' A '']) = [''A''] \<and>
   split_tags (TagsList ['' A '']) = [''A'']"
  by code_simp

section \<open>Deduplication\<close>









lemma colon_key:
  assumes "CHR '':'' \<notin> set w1" "CHR '':'' \<notin> set w2" "w1 @ ''::'' @ f1 = w2 @ ''::'' @ f2"
  shows "w1 = w2 \<and> f1 = f2"
proof -
  have "takeWhile (\<lambda>c. c \<noteq> CHR '':'') (w1 @ ''::'' @ f1) = w1"
    using assms(1) by (simp add: takeWhile_append2 [where ?xs = w1] takeWhile_append)
  moreover have "takeWhile (\<lambda>c. c \<noteq> CHR '':'') (w2 @ ''::'' @ f2) = w2"
    using assms(2) by (simp add: takeWhile_append)
  ultimately have "w1 = w2" using assms(3) by simp
  with assms(3) show ?thesis by simp
qed

lemma colon_key_pair:
  assumes "CHR '':'' \<notin> set (e_well_key a)" and "CHR '':'' \<notin> set (e_well_key b)"
  shows "dedupe_k ''filename'' a = dedupe_k ''filename'' b
         \<longleftrightarrow> (e_well_key a, e_filename a) = (e_well_key b, e_filename b)"
  using colon_key [OF assms] by (auto simp: dedupe_k_def)




section \<open>Search: total and page\<close>

lemma lower_Nil_iff: "lower s = [] \<longleftrightarrow> s = []"
  by (simp add: lower_def)

lemma filters_reorder:
  "filter (text_match qn)
     (filter (\<lambda>h. \<not> filter_rejects bucket (h_bucket h))
       (filter (\<lambda>h. \<not> filter_rejects well_key (h_well_key h))
         (filter (\<lambda>h. include_dirs \<or> h_type h \<noteq> Directory) xs)))
   = filter (\<lambda>h. include_dirs \<or> h_type h \<noteq> Directory) (filter (hit qn well_key bucket) xs)"
  by (induction xs) (auto simp: hit_def)

lemma idx_search_all:
  assumes "strip q \<noteq> []"
    and "length (filter (hit (lower (strip q)) well_key bucket) (i_flat idx)) \<le> limit"
  shows "idx_search idx q well_key bucket limit 0 =
           (length (filter (hit (lower (strip q)) well_key bucket) (i_flat idx)),
            filter (hit (lower (strip q)) well_key bucket) (i_flat idx))"
  using assms by (simp add: idx_search_def lower_Nil_iff Let_def)

lemma build_nodes_append:
  "build_nodes wk wid b (xs @ ys) = build_nodes wk wid b xs @ build_nodes wk wid b ys"
  by (induction xs) (simp_all add: Let_def)

lemma build_nodes_replicate:
  "build_nodes wk wid b (replicate n e) = concat (replicate n (build_nodes wk wid b [e]))"
proof (induction n)
  case 0
  then show ?case by simp
next
  case (Suc n)
  have "build_nodes wk wid b (replicate (Suc n) e) = build_nodes wk wid b ([e] @ replicate n e)"
    by simp
  also have "\<dots> = build_nodes wk wid b [e] @ build_nodes wk wid b (replicate n e)"
    by (rule build_nodes_append)
  finally show ?case by (simp add: Suc)
qed

lemma concat_replicate_single: "concat (replicate n [x]) = replicate n x"
  by (induction n) simp_all

lemma example_build_node: "build_nodes ''A'' ''A'' ''docs'' [example_node] = [example_hit]"
  by code_simp

lemma big_flat: "i_flat (ManifestIndex [(''A'', big_manifest)]) = replicate 1000000 example_hit"
proof -
  have "build [(''A'', big_manifest)] = build_nodes ''A'' ''A'' ''docs'' (replicate 1000000 example_node)"
    by (simp add: big_manifest_def)
  then show ?thesis
    by (simp only: ManifestIndex_def manifest_index.simps build_nodes_replicate
        example_build_node concat_replicate_single)
qed

lemma example_hit_hits: "hit (lower (strip ''b.txt'')) None None example_hit"
  by code_simp

lemma example_hit_text: "text_match (lower (strip ''b.txt'')) example_hit"
  by code_simp

lemma example_hit_type: "h_type example_hit = File"
  by (simp add: example_hit_def)

lemma strip_b_txt: "strip ''b.txt'' \<noteq> []"
  by code_simp


lemma filter_rejects_simps:
  "filter_rejects None v = False"
  "filter_rejects (Some []) v = False"
  "k \<noteq> [] \<Longrightarrow> filter_rejects (Some k) v = (v \<noteq> k)"
  by (simp_all add: filter_rejects_def)

text \<open>
  The API asks the index for the first 999999 matches and works on those. For a query
  that is not blank and an index in which at most 999999 entries pass the well key filter,
  the bucket filter and the text match, the total of the response is the length of the
  final list (directory exclusion, filters, text match, and deduplication when enabled,
  applied to the flat index; a filter that is the empty string counts as absent), and the
  page is the slice of that list from the offset, of the length of the limit at most.
\<close>

lemma search_final_list:
  assumes "strip q \<noteq> []"
    and "length (filter (hit (lower (strip q)) well_key bucket) (i_flat idx)) \<le> 999999"
  shows "search (Some idx) q well_key bucket limit offset include_dirs dedupe dedupe_key =
           Inr \<lparr>r_query = q, r_filters = [(''well_key'', well_key), (''bucket'', bucket)],
                r_total = length (final_list idx q well_key bucket include_dirs dedupe dedupe_key),
                r_offset = offset, r_limit = limit,
                r_results = take limit (drop offset
                  (final_list idx q well_key bucket include_dirs dedupe dedupe_key))\<rparr>
         \<and> length (take limit (drop offset
              (final_list idx q well_key bucket include_dirs dedupe dedupe_key))) \<le> limit"
proof -
  have "idx_search idx q well_key bucket 999999 0 =
           (length (filter (hit (lower (strip q)) well_key bucket) (i_flat idx)),
            filter (hit (lower (strip q)) well_key bucket) (i_flat idx))"
    using assms by (rule idx_search_all)
  moreover have "final_list idx q well_key bucket include_dirs dedupe dedupe_key =
      (if dedupe
       then dedupe_results (map hit_to_entry
              (filter (\<lambda>h. include_dirs \<or> h_type h \<noteq> Directory)
                (filter (hit (lower (strip q)) well_key bucket) (i_flat idx)))) dedupe_key
       else map hit_to_entry
              (filter (\<lambda>h. include_dirs \<or> h_type h \<noteq> Directory)
                (filter (hit (lower (strip q)) well_key bucket) (i_flat idx))))"
    by (simp only: final_list_def Let_def filters_reorder)
  ultimately show ?thesis
    by (simp add: search_def get_index_def Let_def del: filter_filter)
qed

text \<open>
  A filter given as the empty string is no filter: no entry of the example index has the
  empty well key, and the search with that filter returns the example entry.
\<close>

lemma example_final_list:
  "final_list (ManifestIndex [(''A'', example_manifest)]) ''b.txt'' (Some []) None False True ''path''
     = [hit_to_entry example_hit]"
  by code_simp

lemma example_hit_hits_empty_filter: "hit (lower (strip ''b.txt'')) (Some []) None example_hit"
  by code_simp

lemma search_empty_string_filter:
  "search (Some (ManifestIndex [(''A'', example_manifest)])) ''b.txt'' (Some []) None 100 0 False True ''path''
     = Inr \<lparr>r_query = ''b.txt'', r_filters = [(''well_key'', Some []), (''bucket'', None)],
            r_total = 1, r_offset = 0, r_limit = 100,
            r_results = [hit_to_entry example_hit]\<rparr>"
proof -
  have h2: "length (filter (hit (lower (strip ''b.txt'')) (Some []) None)
              (i_flat (ManifestIndex [(''A'', example_manifest)]))) \<le> 999999"
    by (simp add: example_flat)
  show ?thesis
    using search_final_list [OF strip_b_txt h2, of 100 0 False True "''path''"]
    by (simp add: example_final_list)
qed

lemma search_million:
  "search (Some (ManifestIndex [(''A'', big_manifest)])) ''b.txt'' None None 100 0 False False ''path''
     = Inr \<lparr>r_query = ''b.txt'', r_filters = [(''well_key'', None), (''bucket'', None)],
            r_total = 999999, r_offset = 0, r_limit = 100,
            r_results = replicate 100 (hit_to_entry example_hit)\<rparr>"
proof -
  have "idx_search (ManifestIndex [(''A'', big_manifest)]) ''b.txt'' None None 999999 0
      = (1000000, replicate 999999 example_hit)"
    using strip_b_txt by (simp add: idx_search_def big_flat Let_def example_hit_hits lower_Nil_iff)
  then show ?thesis
    by (simp add: search_def get_index_def example_hit_type)
qed

lemma final_list_million:
  "length (final_list (ManifestIndex [(''A'', big_manifest)]) ''b.txt'' None None False False ''path'')
     = 1000000"
  by (simp add: final_list_def big_flat Let_def example_hit_text example_hit_type filter_rejects_def)

text \<open>
  The search of the package works on all its matches: on the same million nodes its total
  is a million.
\<close>

lemma pkg_iter_node_well_id:
  "m_well_id m = m_well_id m' \<Longrightarrow>
   pkg_iter_node q_l include_dirs wk m bname n = pkg_iter_node q_l include_dirs wk m' bname n"
  unfolding pkg_iter_node_def by (simp only:)

lemma example_iter_node':
  "pkg_iter_node (strip (lower ''b.txt'')) False ''A'' example_manifest ''docs'' example_node
     = [hit_to_entry example_hit]"
  by code_simp

lemma example_iter_node:
  "pkg_iter_node (strip (lower ''b.txt'')) False ''A'' big_manifest ''docs'' example_node
     = [hit_to_entry example_hit]"
proof -
  have "m_well_id big_manifest = m_well_id example_manifest"
    by (simp add: big_manifest_def example_manifest_def)
  then show ?thesis
    by (simp only: pkg_iter_node_well_id [of big_manifest example_manifest] example_iter_node')
qed

lemma concat_map_replicate: "concat (map f (replicate n x)) = concat (replicate n (f x))"
  by (induction n) simp_all

lemma pkg_search_million:
  "pkg_search [(''A'', big_manifest)] ''b.txt'' None None 100 0 False False ''path''
     = Inr \<lparr>r_query = ''b.txt'', r_filters = [(''well_key'', None), (''bucket'', None)],
            r_total = 1000000, r_offset = 0, r_limit = 100,
            r_results = replicate 100 (hit_to_entry example_hit)\<rparr>"
proof -
  have "pkg_iter_entries [(''A'', big_manifest)] ''b.txt'' None None False
      = concat (map (pkg_iter_node (strip (lower ''b.txt'')) False ''A'' big_manifest ''docs'')
          (replicate 1000000 example_node))"
    by (simp add: pkg_iter_entries_def filter_rejects_def big_manifest_def)
  also have "\<dots> = replicate 1000000 (hit_to_entry example_hit)"
    by (simp only: concat_map_replicate example_iter_node concat_replicate_single)
  finally show ?thesis
    by (simp add: pkg_search_def pkg_ensure_loaded_def)
qed

text \<open>
  C1 fails on the code. The total of a search is to be the length of the final list, and
  paging is to come last. On an index of a million entries that all match the query
  \<^verbatim>\<open>b.txt\<close>, with no filter and no deduplication, the final list has a million
  entries, and the search over the index returns the total 999999: it asks the index for
  the first 999999 matches (\<^verbatim>\<open>limit=999_999\<close>) before it excludes directories,
  deduplicates and counts, against its own comment
  \<^verbatim>\<open>Use full result set from index\<close>. The search of the package, which works on all
  its matches, returns the total 1000000 for the same manifest.
\<close>

theorem search_total_capped:
  "i_flat (ManifestIndex [(''A'', big_manifest)]) = replicate 1000000 example_hit \<and>
   length (final_list (ManifestIndex [(''A'', big_manifest)]) ''b.txt'' None None False False ''path'')
     = 1000000 \<and>
   search (Some (ManifestIndex [(''A'', big_manifest)])) ''b.txt'' None None 100 0 False False ''path''
     = Inr \<lparr>r_query = ''b.txt'', r_filters = [(''well_key'', None), (''bucket'', None)],
            r_total = 999999, r_offset = 0, r_limit = 100,
            r_results = replicate 100 (hit_to_entry example_hit)\<rparr> \<and>
   pkg_search [(''A'', big_manifest)] ''b.txt'' None None 100 0 False False ''path''
     = Inr \<lparr>r_query = ''b.txt'', r_filters = [(''well_key'', None), (''bucket'', None)],
            r_total = 1000000, r_offset = 0, r_limit = 100,
            r_results = replicate 100 (hit_to_entry example_hit)\<rparr>"
  using big_flat final_list_million search_million pkg_search_million
  by (intro conjI)

section \<open>Search: the text match\<close>

lemma in_set_dropWhile: "c \<in> set s \<Longrightarrow> \<not> P c \<Longrightarrow> c \<in> set (dropWhile P s)"
  by (induction s) auto

lemma in_set_strip: "c \<in> set s \<Longrightarrow> \<not> is_space c \<Longrightarrow> c \<in> set (strip s)"
  by (simp add: strip_def in_set_dropWhile)

lemma underscore_not_space: "\<not> is_space CHR ''_''"
  by code_simp

lemma lower_char_underscore: "lower_char CHR ''_'' = CHR ''_''"
  by code_simp

lemma underscore_survives:
  assumes "CHR ''_'' \<in> set q"
  shows "CHR ''_'' \<in> set (lower (strip q))"
proof -
  from assms have "CHR ''_'' \<in> set (strip q)"
    by (rule in_set_strip) (rule underscore_not_space)
  then have "lower_char CHR ''_'' \<in> lower_char ` set (strip q)"
    by (rule imageI)
  then show ?thesis
    by (simp add: lower_def lower_char_underscore)
qed

lemma replace_differs:
  assumes "a \<in> set s" and "a \<noteq> b"
  shows "replace a b s \<noteq> s"
proof
  assume "replace a b s = s"
  moreover have "a \<notin> set (replace a b s)"
    using assms(2) by (auto simp: replace_def)
  ultimately show False using assms(1) by simp
qed

lemma text_match_slash_candidate:
  assumes "CHR ''_'' \<in> set q"
    and "str_in (replace CHR ''_'' CHR ''/'' (lower (strip q))) (lower (h_well_id h)) \<or>
         str_in (replace CHR ''_'' CHR ''/'' (lower (strip q))) (lower (h_path h))"
  shows "text_match (lower (strip q)) h"
proof -
  have "replace CHR ''_'' CHR ''/'' (lower (strip q)) \<noteq> lower (strip q)"
    using underscore_survives [OF assms(1)] by (rule replace_differs) simp
  with assms(2) show ?thesis
    by (simp add: text_match_def Let_def)
qed

lemma str_in_refl: "str_in s s"
  by (cases s) simp_all

lemma text_match_15_9:
  assumes "h_well_id h = ''15/9-F-9A''"
  shows "text_match (lower (strip ''15_9-F-9A'')) h"
proof -
  have "replace CHR ''_'' CHR ''/'' (lower (strip ''15_9-F-9A'')) = lower ''15/9-F-9A''"
    by code_simp
  then have "str_in (replace CHR ''_'' CHR ''/'' (lower (strip ''15_9-F-9A''))) (lower (h_well_id h))"
    by (simp only: assms str_in_refl)
  then show ?thesis
    by (intro text_match_slash_candidate) simp_all
qed

lemma search_slash_example:
  "search (Some (ManifestIndex [(''W1'', slash_manifest)])) ''15_9-F-9A'' None None 100 0 False True ''path''
     = Inr \<lparr>r_query = ''15_9-F-9A'', r_filters = [(''well_key'', None), (''bucket'', None)],
            r_total = 1, r_offset = 0, r_limit = 100,
            r_results = [hit_to_entry
              (example_hit\<lparr>h_well_key := ''W1'', h_well_id := ''15/9-F-9A''\<rparr>)]\<rparr>"
proof -
  have h1: "strip ''15_9-F-9A'' \<noteq> []" by code_simp
  have "i_flat (ManifestIndex [(''W1'', slash_manifest)])
          = [example_hit\<lparr>h_well_key := ''W1'', h_well_id := ''15/9-F-9A''\<rparr>]"
    by code_simp
  then have h2: "length (filter (hit (lower (strip ''15_9-F-9A'')) None None)
              (i_flat (ManifestIndex [(''W1'', slash_manifest)]))) \<le> 999999"
    by simp
  have f: "final_list (ManifestIndex [(''W1'', slash_manifest)]) ''15_9-F-9A'' None None False True ''path''
         = [hit_to_entry (example_hit\<lparr>h_well_key := ''W1'', h_well_id := ''15/9-F-9A''\<rparr>)]"
    by code_simp
  show ?thesis
    using search_final_list [OF h1 h2, of 100 0 False True "''path''"]
    by (simp add: f)
qed

lemma pkg_search_slash_example:
  "pkg_search [(''W1'', slash_manifest)] ''15_9-F-9A'' None None 100 0 False True ''path''
     = Inr \<lparr>r_query = ''15_9-F-9A'', r_filters = [(''well_key'', None), (''bucket'', None)],
            r_total = 0, r_offset = 0, r_limit = 100, r_results = []\<rparr>"
  by code_simp

text \<open>
  C4 holds for the search over the index (\<open>text_match_slash_candidate\<close>,
  \<open>text_match_15_9\<close>) and fails for the search of the package, which has no second
  candidate. The manifest loaded under the key \<^verbatim>\<open>W1\<close> has the well id \<^verbatim>\<open>15/9-F-9A\<close>;
  the query \<^verbatim>\<open>15_9-F-9A\<close> finds its entry through the index and finds nothing through
  the package's search.
\<close>

theorem pkg_search_misses_slash_form:
  "m_well_id slash_manifest = ''15/9-F-9A'' \<and>
   pkg_search [(''W1'', slash_manifest)] ''15_9-F-9A'' None None 100 0 False True ''path''
     = Inr \<lparr>r_query = ''15_9-F-9A'', r_filters = [(''well_key'', None), (''bucket'', None)],
            r_total = 0, r_offset = 0, r_limit = 100, r_results = []\<rparr> \<and>
   search (Some (ManifestIndex [(''W1'', slash_manifest)])) ''15_9-F-9A'' None None 100 0 False True ''path''
     = Inr \<lparr>r_query = ''15_9-F-9A'', r_filters = [(''well_key'', None), (''bucket'', None)],
            r_total = 1, r_offset = 0, r_limit = 100,
            r_results = [hit_to_entry
              (example_hit\<lparr>h_well_key := ''W1'', h_well_id := ''15/9-F-9A''\<rparr>)]\<rparr>"
proof -
  have "m_well_id slash_manifest = ''15/9-F-9A''"
    by (simp add: slash_manifest_def)
  with pkg_search_slash_example search_slash_example show ?thesis
    by (intro conjI)
qed

section \<open>Search: the blank query\<close>

lemma idx_search_blank:
  "strip q = [] \<Longrightarrow> idx_search idx q well_key bucket limit offset = (0, [])"
  by (simp add: idx_search_def lower_def)

lemma search_blank:
  "strip q = [] \<Longrightarrow>
   search (Some idx) q well_key bucket limit offset include_dirs dedupe dedupe_key =
     Inr \<lparr>r_query = q, r_filters = [(''well_key'', well_key), (''bucket'', bucket)],
          r_total = 0, r_offset = offset, r_limit = limit, r_results = []\<rparr>"
  by (simp add: search_def get_index_def idx_search_blank dedupe_results_def)

text \<open>
  C5 holds for the search over the index (\<open>idx_search_blank\<close>, \<open>search_blank\<close>) and
  fails for the search of the package: the query of one space is empty after trimming,
  and the package's search returns both nodes of the example manifest, total 2, because
  it makes its text test only for a query that is not empty.
\<close>

theorem pkg_search_blank_query_matches_all:
  "strip '' '' = [] \<and>
   pkg_search [(''A'', example_manifest)] '' '' None None 100 0 False True ''path'' =
     Inr \<lparr>r_query = '' '', r_filters = [(''well_key'', None), (''bucket'', None)],
          r_total = 2, r_offset = 0, r_limit = 100,
          r_results =
            [hit_to_entry example_hit, hit_to_entry (example_hit\<lparr>h_path := []\<rparr>)]\<rparr> \<and>
   search (Some (ManifestIndex [(''A'', example_manifest)])) '' '' None None 100 0 False True ''path'' =
     Inr \<lparr>r_query = '' '', r_filters = [(''well_key'', None), (''bucket'', None)],
          r_total = 0, r_offset = 0, r_limit = 100, r_results = []\<rparr>"
proof -
  have blank: "strip '' '' = []" by code_simp
  have pkg: "pkg_search [(''A'', example_manifest)] '' '' None None 100 0 False True ''path'' =
     Inr \<lparr>r_query = '' '', r_filters = [(''well_key'', None), (''bucket'', None)],
          r_total = 2, r_offset = 0, r_limit = 100,
          r_results =
            [hit_to_entry example_hit, hit_to_entry (example_hit\<lparr>h_path := []\<rparr>)]\<rparr>"
    by code_simp
  from blank pkg search_blank [OF blank] show ?thesis by simp
qed

section \<open>Bucket listings\<close>

lemma bucket_files_never_unknown_bucket:
  "bucket_files INDEX well_key bucket_name limit offset
     \<noteq> Inl (HTTPException 404 ''Unknown bucket for this well'')"
  by (simp add: bucket_files_def get_index_def idx_bucket_files_def split: option.splits)

lemma bucket_files_known:
  "well_key \<in> fst ` set (i_manifests idx) \<Longrightarrow>
   bucket_files (Some idx) well_key bucket_name limit offset =
     Inr \<lparr>bf_well_key = well_key, bf_bucket = bucket_name,
          bf_total = length (filter (\<lambda>h. h_well_key h = well_key \<and> h_bucket h = bucket_name)
                               (i_flat idx)),
          bf_offset = offset, bf_limit = limit,
          bf_files = map hit_to_entry (take limit (drop offset
             (filter (\<lambda>h. h_well_key h = well_key \<and> h_bucket h = bucket_name)
                (i_flat idx))))\<rparr>"
  by (simp add: bucket_files_def get_index_def idx_bucket_files_def)

lemma pkg_bucket_files_unknown_bucket:
  assumes "map_of MANIFESTS well_key = Some m" and "bucket_name \<notin> fst ` set (m_buckets m)"
  shows "pkg_bucket_files MANIFESTS well_key bucket_name limit offset
           = Inl (HTTPException 404 ''Unknown bucket for this well'')"
proof -
  from assms(1) have "MANIFESTS \<noteq> []" by auto
  moreover from assms(2) have "map_of (m_buckets m) bucket_name = None"
    by (simp add: map_of_eq_None_iff)
  ultimately show ?thesis
    using assms(1) by (simp add: pkg_bucket_files_def pkg_ensure_loaded_def)
qed

text \<open>
  C3 fails on the code. The well \<^verbatim>\<open>A\<close> is known and its manifest has no bucket
  \<^verbatim>\<open>nonexistent-bucket\<close>, and the listing of that bucket over the index is an empty
  page with total 0 where the claim has the error \<^verbatim>\<open>Unknown bucket for this well\<close>:
  the index method returns a list for every bucket name, so the test of its result against
  \<^verbatim>\<open>None\<close> never holds (\<open>bucket_files_never_unknown_bucket\<close>). The listing of the
  package looks the bucket up in the manifest and raises the error
  (\<open>pkg_bucket_files_unknown_bucket\<close>).
\<close>

theorem bucket_files_unknown_bucket_empty_page:
  "''A'' \<in> fst ` set (i_manifests (ManifestIndex [(''A'', example_manifest)])) \<and>
   ''nonexistent-bucket'' \<notin> fst ` set (m_buckets example_manifest) \<and>
   bucket_files (Some (ManifestIndex [(''A'', example_manifest)])) ''A'' ''nonexistent-bucket'' 200 0 =
     Inr \<lparr>bf_well_key = ''A'', bf_bucket = ''nonexistent-bucket'', bf_total = 0,
          bf_offset = 0, bf_limit = 200, bf_files = []\<rparr> \<and>
   pkg_bucket_files [(''A'', example_manifest)] ''A'' ''nonexistent-bucket'' 200 0 =
     Inl (HTTPException 404 ''Unknown bucket for this well'')"
  by code_simp

section \<open>Summaries\<close>

lemma sum_list_length_concat: "sum_list (map (\<lambda>n. int (length (f n))) ns) = int (length (concat (map f ns)))"
  by (induction ns) simp_all

lemma pkg_foreign_ref_count_spec: "pkg_foreign_ref_count m = spec_foreign_reference_count m"
proof (cases "m_foreign_ref m")
  case None
  have "sum_list (map (\<lambda>(b, nodes). sum_list (map (\<lambda>n. int (length (n_foreign_ref_wells n))) nodes)) bs)
      = int (length (concat (map n_foreign_ref_wells (concat (map snd bs)))))" for bs :: "(string \<times> manifest_node list) list"
    by (induction bs) (auto simp: sum_list_length_concat)
  with None show ?thesis
    by (simp add: pkg_foreign_ref_count_def spec_foreign_reference_count_def)
next
  case (Some refs)
  then show ?thesis
    by (simp add: pkg_foreign_ref_count_def spec_foreign_reference_count_def)
qed

lemma pkg_well_summary_foreign_reference_count:
  "map_of MANIFESTS well_key = Some m \<Longrightarrow>
   \<exists>s. pkg_well_summary MANIFESTS well_key = Inr s \<and>
       s_foreign_reference_count s = spec_foreign_reference_count m"
  by (auto simp: pkg_well_summary_def pkg_ensure_loaded_def Let_def pkg_foreign_ref_count_spec)

lemma idx_summary_foreign_reference_count:
  "map_of (i_manifests idx) well_key = Some m \<Longrightarrow>
   \<exists>s. well_summary (Some idx) well_key = Inr s \<and>
       s_foreign_reference_count s =
         (case m_foreign_ref m of Some refs \<Rightarrow> int (length refs) | None \<Rightarrow> 0)"
proof -
  assume m: "map_of (i_manifests idx) well_key = Some m"
  then have "(well_key, m) \<in> set (i_manifests idx)" by (rule map_of_SomeD)
  then have "well_key \<in> fst ` set (i_manifests idx)" by force
  with m show ?thesis
    by (simp add: well_summary_def get_index_def idx_summary_def Let_def split: option.splits)
qed

text \<open>
  C6 holds for the summary of the package (\<open>pkg_well_summary_foreign_reference_count\<close>)
  and fails for the summary over the index, which counts the manifest's own list and
  nothing else (\<open>idx_summary_foreign_reference_count\<close>). The example manifest records
  no list of its own and its two nodes refer to one foreign well each: the summary over
  the index gives 0, the summary of the package 2.
\<close>

theorem summary_ignores_node_foreign_refs:
  "m_foreign_ref example_manifest = None \<and>
   spec_foreign_reference_count example_manifest = 2 \<and>
   well_summary (Some (ManifestIndex [(''A'', example_manifest)])) ''A''
     = Inr \<lparr>s_well_key = ''A'', s_well_id = ''A'', s_bucket_counts = [(''docs'', 2)],
            s_total_files = 2, s_foreign_reference_count = 0\<rparr> \<and>
   pkg_well_summary [(''A'', example_manifest)] ''A''
     = Inr \<lparr>s_well_key = ''A'', s_well_id = ''A'', s_bucket_counts = [(''docs'', 2)],
            s_total_files = 2, s_foreign_reference_count = 2\<rparr>"
  by code_simp

section \<open>The loader\<close>

lemma dict_set_nonempty: "dict_set ms k v \<noteq> []"
  by (cases ms) auto

lemma load_subdirs_nonempty_acc:
  "acc \<noteq> [] \<Longrightarrow> load_subdirs subdirs acc \<noteq> Inr []"
proof (induction subdirs arbitrary: acc)
  case Nil
  then show ?case by simp
next
  case (Cons d subdirs)
  obtain dir_name well_dir where d: "d = (dir_name, well_dir)" by (cases d)
  show ?case
  proof (cases "find_manifest_json_in_well_dir well_dir")
    case None
    with Cons d show ?thesis by simp
  next
    case (Some manifest_path)
    show ?thesis
    proof (cases "read_manifest manifest_path")
      case (Inl err)
      with Some d show ?thesis by simp
    next
      case (Inr m)
      have "load_subdirs subdirs (dict_set acc (normalize_loaded_key dir_name m) m) \<noteq> Inr []"
        by (rule Cons.IH) (rule dict_set_nonempty)
      with Some Inr d show ?thesis by simp
    qed
  qed
qed

lemma load_subdirs_some_manifest:
  assumes "\<exists>d \<in> set subdirs. find_manifest_json_in_well_dir (snd d) \<noteq> None"
  shows "load_subdirs subdirs acc \<noteq> Inr []"
  using assms
proof (induction subdirs arbitrary: acc)
  case Nil
  then show ?case by simp
next
  case (Cons d subdirs)
  obtain dir_name well_dir where d: "d = (dir_name, well_dir)" by (cases d)
  show ?case
  proof (cases "find_manifest_json_in_well_dir well_dir")
    case None
    with Cons.prems d have "\<exists>d \<in> set subdirs. find_manifest_json_in_well_dir (snd d) \<noteq> None"
      by auto
    then have "load_subdirs subdirs acc \<noteq> Inr []" by (rule Cons.IH)
    with None d show ?thesis by simp
  next
    case (Some manifest_path)
    show ?thesis
    proof (cases "read_manifest manifest_path")
      case (Inl err)
      with Some d show ?thesis by simp
    next
      case (Inr m)
      have "load_subdirs subdirs (dict_set acc (normalize_loaded_key dir_name m) m) \<noteq> Inr []"
        by (rule load_subdirs_nonempty_acc) (rule dict_set_nonempty)
      with Some Inr d show ?thesis by simp
    qed
  qed
qed

lemma load_subdirs_no_manifest:
  assumes "\<forall>d \<in> set subdirs. find_manifest_json_in_well_dir (snd d) = None"
  shows "load_subdirs subdirs acc = Inr acc"
  using assms by (induction subdirs arbitrary: acc) auto

lemma set_subdirs_of: "set (subdirs_of children) = {d \<in> set children. is_dir (snd d)}"
  by (auto simp: subdirs_of_def)

lemma load_case_a:
  assumes "\<exists>d \<in> set children. is_dir (snd d) \<and> find_manifest_json_in_well_dir (snd d) \<noteq> None"
  shows "load_manifests_from_wells_dir (Some (Folder children)) = load_subdirs (subdirs_of children) []"
proof -
  have ex: "\<exists>d \<in> set (subdirs_of children). find_manifest_json_in_well_dir (snd d) \<noteq> None"
    unfolding set_subdirs_of using assms by blast
  then have ne: "subdirs_of children \<noteq> []" by auto
  from ex have "load_subdirs (subdirs_of children) [] \<noteq> Inr []"
    by (rule load_subdirs_some_manifest)
  with ne show ?thesis
    by (auto simp: load_manifests_from_wells_dir_def Let_def
        split: sum.splits)
qed

lemma load_case_b_fallback:
  assumes "\<forall>d \<in> set children. is_dir (snd d) \<longrightarrow> find_manifest_json_in_well_dir (snd d) = None"
  shows "load_manifests_from_wells_dir (Some (Folder children)) = case_b children []"
proof -
  have "\<forall>d \<in> set (subdirs_of children). find_manifest_json_in_well_dir (snd d) = None"
    unfolding set_subdirs_of using assms by blast
  then have "load_subdirs (subdirs_of children) [] = Inr []"
    by (rule load_subdirs_no_manifest)
  then show ?thesis
    by (simp add: load_manifests_from_wells_dir_def Let_def)
qed


lemma load_same_subfolders:
  assumes "\<exists>d \<in> set children. is_dir (snd d) \<and> find_manifest_json_in_well_dir (snd d) \<noteq> None"
    and "filter (\<lambda>(name, p). is_dir p) children' = filter (\<lambda>(name, p). is_dir p) children"
  shows "load_manifests_from_wells_dir (Some (Folder children')) =
           load_manifests_from_wells_dir (Some (Folder children))"
proof -
  have "set (filter (\<lambda>(name, p). is_dir p) children') = set (filter (\<lambda>(name, p). is_dir p) children)"
    by (simp only: assms(2))
  then have "{d \<in> set children'. is_dir (snd d)} = {d \<in> set children. is_dir (snd d)}"
    by (simp add: case_prod_beta)
  with assms(1) have "\<exists>d \<in> set children'. is_dir (snd d) \<and> find_manifest_json_in_well_dir (snd d) \<noteq> None"
    by blast
  then have "load_manifests_from_wells_dir (Some (Folder children')) = load_subdirs (subdirs_of children') []"
    by (rule load_case_a)
  also have "subdirs_of children' = subdirs_of children"
    by (simp only: subdirs_of_def assms(2))
  finally show ?thesis using load_case_a [OF assms(1)] by simp
qed

text \<open>
  C7, as the code has it. When at least one subfolder of the wells directory holds a
  manifest file (one of the preferred names, or any \<^verbatim>\<open>.json\<close> file), the loader returns
  what the loop over the subfolders gives, a mapping or the error of a manifest that does
  not validate, and nothing else in the directory matters: two directories with the same
  subfolders load alike, whatever files lie beside them. When no subfolder holds a
  manifest file, the loader goes on to the files of the wells directory itself.
\<close>

theorem load_layout_choice:
  "((\<exists>d \<in> set children. is_dir (snd d) \<and> find_manifest_json_in_well_dir (snd d) \<noteq> None) \<longrightarrow>
      load_manifests_from_wells_dir (Some (Folder children)) = load_subdirs (subdirs_of children) [] \<and>
      (\<forall>children'.
         filter (\<lambda>(name, p). is_dir p) children' = filter (\<lambda>(name, p). is_dir p) children \<longrightarrow>
         load_manifests_from_wells_dir (Some (Folder children')) =
           load_manifests_from_wells_dir (Some (Folder children)))) \<and>
   ((\<forall>d \<in> set children. is_dir (snd d) \<longrightarrow> find_manifest_json_in_well_dir (snd d) = None) \<longrightarrow>
      load_manifests_from_wells_dir (Some (Folder children)) = case_b children [])"
  using load_case_a [of children] load_same_subfolders [of children]
    load_case_b_fallback [of children]
  by blast

theorem load_layout_choice_witness:
  "load_manifests_from_wells_dir (Some (Folder dir_with_unread_file))
     = Inr [(''A'', example_manifest)] \<and>
   load_manifests_from_wells_dir (Some (Folder (tl dir_with_unread_file)))
     = load_manifests_from_wells_dir (Some (Folder dir_with_unread_file)) \<and>
   load_manifests_from_wells_dir (Some (Folder dir_with_empty_subfolder))
     = case_b dir_with_empty_subfolder []"
proof -
  have h1: "\<exists>d \<in> set dir_with_unread_file.
              is_dir (snd d) \<and> find_manifest_json_in_well_dir (snd d) \<noteq> None"
    by code_simp
  have h2: "filter (\<lambda>(name, p). is_dir p) (tl dir_with_unread_file)
              = filter (\<lambda>(name, p). is_dir p) dir_with_unread_file"
    by (simp add: dir_with_unread_file_def)
  have h3: "\<forall>d \<in> set dir_with_empty_subfolder.
              is_dir (snd d) \<longrightarrow> find_manifest_json_in_well_dir (snd d) = None"
    by code_simp
  have ev: "load_subdirs (subdirs_of dir_with_unread_file) [] = Inr [(''A'', example_manifest)]"
    by code_simp
  from load_layout_choice [of dir_with_unread_file] h1 h2
  have "load_manifests_from_wells_dir (Some (Folder dir_with_unread_file))
          = load_subdirs (subdirs_of dir_with_unread_file) []"
    and "load_manifests_from_wells_dir (Some (Folder (tl dir_with_unread_file)))
          = load_manifests_from_wells_dir (Some (Folder dir_with_unread_file))"
    by blast+
  moreover from load_layout_choice [of dir_with_empty_subfolder] h3
  have "load_manifests_from_wells_dir (Some (Folder dir_with_empty_subfolder))
          = case_b dir_with_empty_subfolder []"
    by blast
  ultimately show ?thesis by (simp only: ev)
qed

text \<open>
  The directory below has a subfolder, which is empty, and the loader returns the manifest
  of the file \<^verbatim>\<open>W.json\<close> under the key \<^verbatim>\<open>W\<close>; without that file the same directory
  does not load.
\<close>

theorem load_falls_back_to_files:
  "filter (\<lambda>(name, p). is_dir p) dir_with_empty_subfolder = [(''empty'', Folder [])] \<and>
   load_manifests_from_wells_dir (Some (Folder dir_with_empty_subfolder))
     = Inr [(''W'', example_manifest)] \<and>
   load_manifests_from_wells_dir (Some (Folder [(''empty'', Folder [])])) = Inl RuntimeError"
  by code_simp

lemma dict_set_replaces:
  "k \<in> fst ` set ms \<Longrightarrow>
   length (dict_set ms k v) = length ms \<and> map_of (dict_set ms k v) k = Some v"
  by (induction ms) auto

text \<open>
  C10. The folders \<^verbatim>\<open>A\<close> and \<^verbatim>\<open>A\<close> followed by a space each load on their own, under
  the same key \<^verbatim>\<open>A\<close>. Together they load without an error into a mapping of one
  entry, the manifest of the folder that sorts later, and no entry of the index built from
  it has the well id of the other manifest. The same happens when the key that a folder of
  a blank name derives from its manifest's well id is the name of another folder.
\<close>

theorem later_manifest_replaces_earlier:
  "load_manifests_from_wells_dir
     (Some (Folder [(''A'', Folder [(''manifest.json'', RegularFile (Some example_manifest))])]))
     = Inr [(''A'', example_manifest)] \<and>
   load_manifests_from_wells_dir
     (Some (Folder [(''A '', Folder [(''manifest.json'', RegularFile (Some slash_manifest))])]))
     = Inr [(''A'', slash_manifest)] \<and>
   load_manifests_from_wells_dir (Some (Folder dir_with_clashing_names))
     = Inr [(''A'', slash_manifest)] \<and>
   init_app (Some (Folder dir_with_clashing_names)) = Inr (ManifestIndex [(''A'', slash_manifest)]) \<and>
   m_well_id example_manifest \<notin> h_well_id ` set (i_flat (ManifestIndex [(''A'', slash_manifest)])) \<and>
   load_manifests_from_wells_dir (Some (Folder dir_with_blank_name))
     = Inr [(''A'', slash_manifest)]"
  by code_simp

end
